theory Spec2Isabelle
  imports Main
begin

section \<open>Python strings\<close>

text \<open>
  A Python \<open>str\<close> is a sequence of code points. The model uses \<^typ>\<open>string\<close>, whose
  characters are read as the code points U+0000 to U+00FF, so \<^term>\<open>length\<close> counts
  code points as Python's \<open>len\<close> does. The character predicates and \<open>lower\<close> below are
  Python's, restricted to that range.
\<close>

definition NL :: char where
  "NL = CHR 0x0A"

definition py_isspace :: "char \<Rightarrow> bool" where
  \<comment> \<open>\<open>str.isspace\<close> on one character, also the class \<open>\s\<close> of \<open>re\<close> on \<open>str\<close> patterns:
      U+0009..U+000D, U+001C..U+0020, U+0085, U+00A0.\<close>
  "py_isspace c =
     (let n = (of_char c :: nat)
      in (9 \<le> n \<and> n \<le> 13) \<or> (28 \<le> n \<and> n \<le> 32) \<or> n = 133 \<or> n = 160)"

definition py_isdecimal :: "char \<Rightarrow> bool" where
  \<comment> \<open>the class \<open>\d\<close>: the decimal digits, \<open>0\<close> to \<open>9\<close> in this range.\<close>
  "py_isdecimal c = (let n = (of_char c :: nat) in 48 \<le> n \<and> n \<le> 57)"

definition py_isdigit_char :: "char \<Rightarrow> bool" where
  \<comment> \<open>\<open>str.isdigit\<close> on one character: the decimal digits and the superscripts
      U+00B2, U+00B3, U+00B9.\<close>
  "py_isdigit_char c =
     (let n = (of_char c :: nat) in (48 \<le> n \<and> n \<le> 57) \<or> n = 178 \<or> n = 179 \<or> n = 185)"

definition py_isdigit :: "string \<Rightarrow> bool" where
  "py_isdigit s = (s \<noteq> [] \<and> list_all py_isdigit_char s)"

definition is_AZ :: "char \<Rightarrow> bool" where
  "is_AZ c = (let n = (of_char c :: nat) in 65 \<le> n \<and> n \<le> 90)"

definition is_az :: "char \<Rightarrow> bool" where
  "is_az c = (let n = (of_char c :: nat) in 97 \<le> n \<and> n \<le> 122)"

definition lower_char :: "char \<Rightarrow> char" where
  \<comment> \<open>\<open>A\<close>..\<open>Z\<close> and U+00C0..U+00DE (without the sign U+00D7) have a lower case, 32 above.\<close>
  "lower_char c =
     (let n = (of_char c :: nat)
      in if (65 \<le> n \<and> n \<le> 90) \<or> (192 \<le> n \<and> n \<le> 222 \<and> n \<noteq> 215)
         then char_of (n + 32) else c)"

definition lower :: "string \<Rightarrow> string" where
  "lower s = map lower_char s"

definition strip :: "string \<Rightarrow> string" where
  "strip s = rev (dropWhile py_isspace (rev (dropWhile py_isspace s)))"

fun split_on :: "char \<Rightarrow> string \<Rightarrow> string list" where
  \<comment> \<open>\<open>s.split(d)\<close> for a one-character separator: never an empty list.\<close>
  "split_on d [] = [[]]"
| "split_on d (c # cs) =
     (if c = d then [] # split_on d cs
      else (case split_on d cs of [] \<Rightarrow> [[c]] | l # ls \<Rightarrow> (c # l) # ls))"

fun join :: "string \<Rightarrow> string list \<Rightarrow> string" where
  "join sep [] = []"
| "join sep [x] = x"
| "join sep (x # y # ys) = x @ sep @ join sep (y # ys)"

fun starts_with :: "string \<Rightarrow> string \<Rightarrow> bool" where
  "starts_with [] s = True"
| "starts_with (p # ps) [] = False"
| "starts_with (p # ps) (c # cs) = (p = c \<and> starts_with ps cs)"

fun contains :: "string \<Rightarrow> string \<Rightarrow> bool" where
  \<comment> \<open>\<open>sub in s\<close>\<close>
  "contains sub [] = starts_with sub []"
| "contains sub (c # cs) = (starts_with sub (c # cs) \<or> contains sub cs)"

definition slice :: "string \<Rightarrow> nat \<Rightarrow> nat \<Rightarrow> string" where
  \<comment> \<open>\<open>s[a:b]\<close> for indices that are not negative; empty when \<open>b \<le> a\<close>.\<close>
  "slice s a b = take (b - a) (drop a s)"

definition slice_to :: "string \<Rightarrow> int \<Rightarrow> string" where
  \<comment> \<open>\<open>s[:n]\<close>; a negative \<open>n\<close> counts from the end.\<close>
  "slice_to s n = (if 0 \<le> n then take (nat n) s else take (length s - nat (- n)) s)"

section \<open>Regular expressions\<close>

text \<open>
  The patterns of the program are written in the fragment below of Python's \<open>re\<close>
  syntax: character classes, concatenation, alternation and the greedy star
  (\<open>r+\<close> is \<open>r r*\<close> and \<open>r?\<close> is \<open>r|\<close>). \<open>rmatch r s\<close> lists the lengths of the prefixes
  of \<open>s\<close> that \<open>r\<close> matches, in the order in which the backtracking matcher tries
  them, so that the head of the list is the match \<open>re\<close> reports at that position.
  An iteration of a star that consumes nothing is not repeated.
\<close>

datatype regex =
    Eps
  | Cls "char \<Rightarrow> bool"
  | Seq regex regex
  | Alt regex regex
  | Star regex

function rmatch :: "regex \<Rightarrow> string \<Rightarrow> nat list" where
  "rmatch Eps s = [0]"
| "rmatch (Cls p) s = (case s of [] \<Rightarrow> [] | c # _ \<Rightarrow> if p c then [1] else [])"
| "rmatch (Seq a b) s =
     concat (map (\<lambda>n. map (\<lambda>m. n + m) (rmatch b (drop n s))) (rmatch a s))"
| "rmatch (Alt a b) s = rmatch a s @ rmatch b s"
| "rmatch (Star a) s =
     concat (map (\<lambda>n. if 0 < n \<and> n \<le> length s
                       then map (\<lambda>m. n + m) (rmatch (Star a) (drop n s)) else [])
                 (rmatch a s)) @ [0]"
  by pat_completeness auto
termination
  by (relation "inv_image (less_than <*lex*> less_than) (\<lambda>(r, s). (length s, size r))")
     (auto simp: less_Suc_eq_le)

definition Chr :: "char \<Rightarrow> regex" where
  "Chr c = Cls (\<lambda>x. x = c)"

definition Plus :: "regex \<Rightarrow> regex" where
  "Plus r = Seq r (Star r)"

definition Opt :: "regex \<Rightarrow> regex" where
  "Opt r = Alt r Eps"

fun lit :: "string \<Rightarrow> regex" where
  "lit [] = Eps"
| "lit (c # cs) = Seq (Chr c) (lit cs)"

fun re_search :: "regex \<Rightarrow> string \<Rightarrow> (nat \<times> nat) option" where
  \<comment> \<open>\<open>re.search\<close>: start and end of the leftmost match, \<open>None\<close> when there is none.\<close>
  "re_search r [] = (case rmatch r [] of [] \<Rightarrow> None | n # _ \<Rightarrow> Some (0, n))"
| "re_search r (c # cs) =
     (case rmatch r (c # cs) of
        n # _ \<Rightarrow> Some (0, n)
      | [] \<Rightarrow> map_option (\<lambda>(a, b). (Suc a, Suc b)) (re_search r cs))"

function re_sub :: "regex \<Rightarrow> string \<Rightarrow> string \<Rightarrow> string" where
  \<comment> \<open>\<open>re.sub(r, repl, s)\<close> for a pattern that matches no empty string (all patterns of
      the program): the leftmost matches, not overlapping, are replaced.\<close>
  "re_sub r repl [] = []"
| "re_sub r repl (c # cs) =
     (case rmatch r (c # cs) of
        [] \<Rightarrow> c # re_sub r repl cs
      | n # _ \<Rightarrow> if 0 < n then repl @ re_sub r repl (drop n (c # cs))
                 else c # re_sub r repl cs)"
  by pat_completeness auto
termination
  by (relation "measure (\<lambda>(r, repl, s). length s)") auto

function re_findall :: "regex \<Rightarrow> string \<Rightarrow> string list" where
  \<comment> \<open>\<open>re.findall(r, s)\<close> for a pattern without groups that matches no empty string.\<close>
  "re_findall r [] = []"
| "re_findall r (c # cs) =
     (case rmatch r (c # cs) of
        [] \<Rightarrow> re_findall r cs
      | n # _ \<Rightarrow> if 0 < n then take n (c # cs) # re_findall r (drop n (c # cs))
                 else re_findall r cs)"
  by pat_completeness auto
termination
  by (relation "measure (\<lambda>(r, s). length s)") auto

section \<open>The patterns of the program\<close>

definition nl_lit :: "string \<Rightarrow> regex" where
  \<comment> \<open>the pattern \<open>\nword\n\<close>: a word between two newlines\<close>
  "nl_lit w = lit (NL # w @ [NL])"

definition ws_run :: regex where
  \<comment> \<open>\<open>\s+\<close>\<close>
  "ws_run = Plus (Cls py_isspace)"

definition page_number :: regex where
  \<comment> \<open>\<open>\n\d+\n\<close>\<close>
  "page_number = Seq (Chr NL) (Seq (Plus (Cls py_isdecimal)) (Chr NL))"

definition is_hex :: "char \<Rightarrow> bool" where
  "is_hex c = (let n = (of_char c :: nat)
               in (48 \<le> n \<and> n \<le> 57) \<or> (97 \<le> n \<and> n \<le> 102) \<or> (65 \<le> n \<and> n \<le> 70))"

definition url_char :: regex where
  \<comment> \<open>\<open>(?:[a-zA-Z]|[0-9]|[$-_@.&+]|[!*\\(\\),]|(?:%[0-9a-fA-F][0-9a-fA-F]))\<close>; the third
      class is the range from \<open>$\<close> to \<open>_\<close>, which holds \<open>@.&+\<close> already.\<close>
  "url_char =
     Alt (Cls (\<lambda>c. is_az c \<or> is_AZ c))
    (Alt (Cls py_isdecimal)
    (Alt (Cls (\<lambda>c. (36 \<le> (of_char c :: nat) \<and> (of_char c :: nat) \<le> 95)
                     \<or> c \<in> set ''@.&+''))
    (Alt (Cls (\<lambda>c. c \<in> set [CHR ''!'', CHR ''*'', CHR 0x5C, CHR ''('', CHR '')'', CHR '','']))
         (Seq (Chr CHR ''%'') (Seq (Cls is_hex) (Cls is_hex))))))"

definition url :: regex where
  \<comment> \<open>\<open>http[s]?://(?:...)+\<close>\<close>
  "url = Seq (lit ''http'') (Seq (Opt (Chr CHR ''s'')) (Seq (lit ''://'') (Plus url_char)))"

definition email :: regex where
  \<comment> \<open>\<open>\S+@\S+\<close>\<close>
  "email = Seq (Plus (Cls (\<lambda>c. \<not> py_isspace c)))
               (Seq (Chr CHR ''@'') (Plus (Cls (\<lambda>c. \<not> py_isspace c))))"

definition nl_run :: regex where
  \<comment> \<open>\<open>\n+\<close>\<close>
  "nl_run = Plus (Chr NL)"

definition caps_heading :: regex where
  \<comment> \<open>\<open>\n[A-Z][A-Z\s]+\n\<close>\<close>
  "caps_heading =
     Seq (Chr NL) (Seq (Cls is_AZ) (Seq (Plus (Cls (\<lambda>c. is_AZ c \<or> py_isspace c))) (Chr NL)))"

definition end_patterns :: "regex list" where
  "end_patterns =
     [caps_heading, nl_lit ''references'', nl_lit ''conclusion'', nl_lit ''discussion'']"

definition intro_patterns :: "regex list" where
  "intro_patterns =
     [nl_lit ''introduction'', nl_lit ''abstract'', nl_lit ''summary'', nl_lit ''background'']"

definition thought_patterns :: "regex list" where
  "thought_patterns =
     [nl_lit ''methods'', nl_lit ''methodology'', nl_lit ''approach'', nl_lit ''discussion'']"

definition answer_patterns :: "regex list" where
  "answer_patterns =
     [nl_lit ''results'', nl_lit ''findings'', nl_lit ''conclusion'', nl_lit ''outcome'']"

definition ref_patterns :: "regex list" where
  "ref_patterns = [nl_lit ''references'', nl_lit ''bibliography'', nl_lit ''citations'']"

definition limitation_patterns :: "regex list" where
  "limitation_patterns =
     [nl_lit ''limitations'', nl_lit ''future work'', nl_lit ''future research'']"

fun lit_ci :: "string \<Rightarrow> regex" where
  \<comment> \<open>a literal under \<open>re.IGNORECASE\<close>\<close>
  "lit_ci [] = Eps"
| "lit_ci (c # cs) = Seq (Cls (\<lambda>x. lower_char x = lower_char c)) (lit_ci cs)"

definition figure_pattern :: "string \<Rightarrow> regex" where
  \<comment> \<open>\<open>Word \d+[:.][^\.]*\.\<close> under \<open>re.IGNORECASE\<close>, the word with its trailing space\<close>
  "figure_pattern w =
     Seq (lit_ci w) (Seq (Plus (Cls py_isdecimal))
    (Seq (Cls (\<lambda>c. c = CHR '':'' \<or> c = CHR ''.''))
    (Seq (Star (Cls (\<lambda>c. c \<noteq> CHR ''.''))) (Chr CHR ''.''))))"

definition figure_patterns :: "regex list" where
  "figure_patterns =
     [figure_pattern ''Figure '', figure_pattern ''Fig. '',
      figure_pattern ''Table '', figure_pattern ''Image '']"

section \<open>The text normalizer\<close>

definition clean_pass1 :: "string \<Rightarrow> string" where
  "clean_pass1 raw_text = re_sub ws_run '' '' raw_text"

definition clean_pass2 :: "string \<Rightarrow> string" where
  "clean_pass2 text = re_sub page_number [NL] text"

definition clean_pass3 :: "string \<Rightarrow> string" where
  "clean_pass3 text = re_sub email [] (re_sub url [] text)"

definition clean_pass4 :: "string \<Rightarrow> string" where
  "clean_pass4 text = re_sub nl_run [NL] text"

definition clean_pdf_text :: "string \<Rightarrow> string" where
  "clean_pdf_text raw_text =
     strip (clean_pass4 (clean_pass3 (clean_pass2 (clean_pass1 raw_text))))"

section \<open>The extractors\<close>

definition skip_markers :: "string list" where
  "skip_markers = [''issn'', ''doi'', [CHR 0xA9], ''page'', ''volume'']"

definition has_skip_marker :: "string \<Rightarrow> bool" where
  "has_skip_marker line = list_ex (\<lambda>skip. contains skip (lower line)) skip_markers"

definition title_lines :: "string \<Rightarrow> string list" where
  \<comment> \<open>\<open>[line.strip() for line in text.split('\n') if line.strip()]\<close>\<close>
  "title_lines text = map strip (filter (\<lambda>line. strip line \<noteq> []) (split_on NL text))"

fun title_loop :: "string list \<Rightarrow> string option" where
  "title_loop [] = None"
| "title_loop (line # rest) =
     (if has_skip_marker line then title_loop rest
      else if 10 < length line then Some line
      else title_loop rest)"

definition extract_title :: "string \<Rightarrow> string" where
  "extract_title text =
     (case title_loop (take 20 (title_lines text)) of
        Some line \<Rightarrow> line
      | None \<Rightarrow> ''Document title not found'')"

definition title_candidate :: "string \<Rightarrow> bool" where
  \<comment> \<open>a line that the title extractor accepts: no skip marker, more than 10 characters\<close>
  "title_candidate line = (\<not> has_skip_marker line \<and> 10 < length line)"

fun find_end :: "regex list \<Rightarrow> string \<Rightarrow> nat option" where
  \<comment> \<open>the loop over \<open>end_patterns\<close>: the start of the match of the first pattern of the
      list that matches the rest of the lowercased text\<close>
  "find_end [] rest = None"
| "find_end (end_pattern # ps) rest =
     (case re_search end_pattern rest of
        Some (s, e) \<Rightarrow> Some s
      | None \<Rightarrow> find_end ps rest)"

definition section_from :: "string \<Rightarrow> nat \<Rightarrow> string" where
  \<comment> \<open>the body of the \<open>if pattern_match\<close> branch up to the trimmed section\<close>
  "section_from text start_pos =
     (let end_pos = (case find_end end_patterns (drop start_pos (lower text)) of
                       Some s \<Rightarrow> start_pos + s
                     | None \<Rightarrow> length text)
      in strip (slice text start_pos end_pos))"

fun section_loop :: "string \<Rightarrow> regex list \<Rightarrow> int \<Rightarrow> string option" where
  "section_loop text [] max_chars = None"
| "section_loop text (pattern # ps) max_chars =
     (case re_search pattern (lower text) of
        Some (s, start_pos) \<Rightarrow>
          (let section = section_from text start_pos
           in if section \<noteq> [] then Some (slice_to section max_chars) else None)
      | None \<Rightarrow> section_loop text ps max_chars)"

definition extract_section_by_pattern :: "string \<Rightarrow> regex list \<Rightarrow> int \<Rightarrow> string option" where
  "extract_section_by_pattern text patterns max_chars = section_loop text patterns max_chars"

definition extract_references :: "string \<Rightarrow> string option" where
  "extract_references text =
     (case extract_section_by_pattern text ref_patterns 1500 of
        None \<Rightarrow> None
      | Some ref_text \<Rightarrow>
          if ref_text = [] then None
          else Some (join ''; ''
                 (take 5 (filter (\<lambda>line. 20 < length line \<and> \<not> py_isdigit line)
                                 (map strip (split_on NL ref_text))))))"

definition extract_figures_and_images :: "string \<Rightarrow> string option" where
  "extract_figures_and_images text =
     (let figure_info = concat (map (\<lambda>pattern. re_findall pattern text) figure_patterns)
      in if figure_info \<noteq> [] then Some (join ''; '' (take 10 figure_info)) else None)"

section \<open>Values and mappings\<close>

text \<open>
  The values a mapping of the pipeline can hold: the heuristic extraction stores strings
  and \<open>None\<close>, the model's reply, once parsed, any structured value (floating-point
  numbers are left out of the model).
\<close>

datatype pyval =
    PNone
  | PBool bool
  | PInt int
  | PStr string
  | PList "pyval list"
  | PDict "(string \<times> pyval) list"

type_synonym pydict = "string \<rightharpoonup> pyval"

fun truthy :: "pyval \<Rightarrow> bool" where
  "truthy PNone = False"
| "truthy (PBool b) = b"
| "truthy (PInt i) = (i \<noteq> 0)"
| "truthy (PStr s) = (s \<noteq> [])"
| "truthy (PList xs) = (xs \<noteq> [])"
| "truthy (PDict kvs) = (kvs \<noteq> [])"

definition opt_str :: "string option \<Rightarrow> pyval" where
  "opt_str r = (case r of None \<Rightarrow> PNone | Some s \<Rightarrow> PStr s)"

definition or_else :: "string option \<Rightarrow> string \<Rightarrow> string" where
  \<comment> \<open>\<open>x if x else fallback\<close>\<close>
  "or_else r fallback = (case r of None \<Rightarrow> fallback | Some s \<Rightarrow> if s \<noteq> [] then s else fallback)"

section \<open>The orchestrator\<close>

definition extract_document_structure :: "string \<Rightarrow> pydict" where
  "extract_document_structure clean_text =
     (let extracted_data = Map.empty;
          extracted_data = extracted_data(''document'' \<mapsto> PStr (extract_title clean_text));
          intro = extract_section_by_pattern clean_text intro_patterns 1500;
          extracted_data = extracted_data(''Introduction'' \<mapsto>
            PStr (or_else intro ''Introduction section not found in document''));
          thoughts = extract_section_by_pattern clean_text thought_patterns 1500;
          extracted_data = extracted_data(''Thoughts'' \<mapsto>
            PStr (or_else thoughts ''Methods/Discussion section not found in document''));
          answers = extract_section_by_pattern clean_text answer_patterns 1500;
          extracted_data = extracted_data(''Answers'' \<mapsto>
            PStr (or_else answers ''Results/Conclusions section not found in document''));
          extracted_data = extracted_data(''Further_Reading'' \<mapsto>
            opt_str (extract_references clean_text));
          extracted_data = extracted_data(''Images'' \<mapsto>
            opt_str (extract_figures_and_images clean_text));
          limitations = extract_section_by_pattern clean_text limitation_patterns 1000;
          extracted_data = extracted_data(''Further_Development'' \<mapsto> opt_str limitations)
      in extracted_data)"

section \<open>Validation\<close>

text \<open>
  \<open>DocumentInfo\<close> declares four fields of type \<open>str\<close> without a default and nine of type
  \<open>Optional[str]\<close> with default \<open>None\<close>, none with a length constraint. Building it from a
  mapping checks each declared field: a required one must be there and hold a string, an
  optional one may be missing or hold \<open>None\<close> or a string. Keys that are not fields are
  ignored. All failures are reported together in one validation error.
\<close>

record DocumentInfo =
  document :: string
  Introduction :: string
  Thoughts :: string
  Answers :: string
  Hallmarks :: "string option"
  Further_Reading :: "string option"
  Images :: "string option"
  Further_Development :: "string option"
  Thoughts_I :: "string option"
  Answers_I :: "string option"
  Answers_II :: "string option"
  Further_Thoughts :: "string option"
  Ependymoma :: "string option"

datatype field_error = Missing string | StringType string

datatype py_error =
    ValidationError "field_error list"
  | ValueError
  | JSONDecodeError
  | AttributeError
  | Raised string
  | BaseRaised string

definition is_exception :: "py_error \<Rightarrow> bool" where
  \<comment> \<open>whether \<open>except Exception\<close> catches it. \<open>Raised\<close> is an \<open>Exception\<close> raised by the model
      function, \<open>BaseRaised\<close> one outside that hierarchy (\<open>KeyboardInterrupt\<close>, \<open>SystemExit\<close>,
      \<open>GeneratorExit\<close>); the errors of validation, parsing and attribute access are
      \<open>Exception\<close>s.\<close>
  "is_exception e = (case e of BaseRaised n \<Rightarrow> False | _ \<Rightarrow> True)"

definition required_fields :: "string list" where
  "required_fields = [''document'', ''Introduction'', ''Thoughts'', ''Answers'']"

definition optional_fields :: "string list" where
  "optional_fields =
     [''Hallmarks'', ''Further_Reading'', ''Images'', ''Further_Development'', ''Thoughts_I'',
      ''Answers_I'', ''Answers_II'', ''Further_Thoughts'', ''Ependymoma'']"

definition required_error :: "pydict \<Rightarrow> string \<Rightarrow> field_error option" where
  "required_error d k =
     (case d k of None \<Rightarrow> Some (Missing k) | Some (PStr s) \<Rightarrow> None | Some _ \<Rightarrow> Some (StringType k))"

definition optional_error :: "pydict \<Rightarrow> string \<Rightarrow> field_error option" where
  "optional_error d k =
     (case d k of None \<Rightarrow> None | Some PNone \<Rightarrow> None | Some (PStr s) \<Rightarrow> None
      | Some _ \<Rightarrow> Some (StringType k))"

definition field_errors :: "pydict \<Rightarrow> field_error list" where
  "field_errors d =
     List.map_filter (required_error d) required_fields @
     List.map_filter (optional_error d) optional_fields"

definition str_field :: "pydict \<Rightarrow> string \<Rightarrow> string" where
  "str_field d k = (case d k of Some (PStr s) \<Rightarrow> s | _ \<Rightarrow> [])"

definition opt_field :: "pydict \<Rightarrow> string \<Rightarrow> string option" where
  "opt_field d k = (case d k of Some (PStr s) \<Rightarrow> Some s | _ \<Rightarrow> None)"

definition create_document_info :: "pydict \<Rightarrow> py_error + DocumentInfo" where
  "create_document_info extracted_data =
     (if field_errors extracted_data \<noteq> [] then Inl (ValidationError (field_errors extracted_data))
      else Inr \<lparr> document = str_field extracted_data ''document'',
                 Introduction = str_field extracted_data ''Introduction'',
                 Thoughts = str_field extracted_data ''Thoughts'',
                 Answers = str_field extracted_data ''Answers'',
                 Hallmarks = opt_field extracted_data ''Hallmarks'',
                 Further_Reading = opt_field extracted_data ''Further_Reading'',
                 Images = opt_field extracted_data ''Images'',
                 Further_Development = opt_field extracted_data ''Further_Development'',
                 Thoughts_I = opt_field extracted_data ''Thoughts_I'',
                 Answers_I = opt_field extracted_data ''Answers_I'',
                 Answers_II = opt_field extracted_data ''Answers_II'',
                 Further_Thoughts = opt_field extracted_data ''Further_Thoughts'',
                 Ependymoma = opt_field extracted_data ''Ependymoma'' \<rparr>)"

section \<open>The enhancement merge\<close>

definition create_llm_prompt :: "string \<Rightarrow> string" where
  "create_llm_prompt clean_text =
     (''\<newline>'' @
      ''Analyze this document and extract information in JSON format. Return ONLY valid JSON.\<newline>'' @
      ''\<newline>'' @
      ''Required fields:\<newline>'' @
      ''- document: Document title\<newline>'' @
      ''- Introduction: Introduction or summary  \<newline>'' @
      ''- Thoughts: Main thoughts, insights, methodology\<newline>'' @
      ''- Answers: Key findings, results, conclusions\<newline>'' @
      ''\<newline>'' @
      ''Optional fields (use null if not found):\<newline>'' @
      ''- Hallmarks: Key characteristics\<newline>'' @
      ''- Further_Reading: References or recommended reading\<newline>'' @
      ''- Images: Description of figures/tables/images\<newline>'' @
      ''- Further_Development: Future work, limitations, next steps\<newline>'' @
      ''- Thoughts_I: Additional thoughts part I\<newline>'' @
      ''- Answers_I: Additional answers part I  \<newline>'' @
      ''- Answers_II: Additional answers part II\<newline>'' @
      ''- Further_Thoughts: Further considerations\<newline>'' @
      ''- Ependymoma: Any ependymoma-related content\<newline>'' @
      ''\<newline>'' @
      ''Document text:\<newline>'') @
     clean_text @
     (''\<newline>'' @
      ''\<newline>'' @
      ''Return only the JSON object:\<newline>'')"

fun py_find :: "char \<Rightarrow> string \<Rightarrow> int" where
  \<comment> \<open>\<open>s.find(c)\<close>: the first index of \<open>c\<close>, or \<open>-1\<close>\<close>
  "py_find c [] = - 1"
| "py_find c (x # xs) =
     (if x = c then 0 else (let i = py_find c xs in if i = - 1 then - 1 else i + 1))"

definition py_rfind :: "char \<Rightarrow> string \<Rightarrow> int" where
  \<comment> \<open>\<open>s.rfind(c)\<close>: the last index of \<open>c\<close>, or \<open>-1\<close>\<close>
  "py_rfind c s =
     (let i = py_find c (rev s) in if i = - 1 then - 1 else int (length s) - 1 - i)"

definition parse_llm_response :: "(string \<Rightarrow> py_error + pyval) \<Rightarrow> pyval \<Rightarrow> py_error + pyval" where
  \<comment> \<open>the parsing step; \<open>json_loads\<close> stands for the library's \<open>json.loads\<close>\<close>
  "parse_llm_response json_loads llm_response =
     (case llm_response of
        PStr s \<Rightarrow>
          (let json_start = py_find CHR 0x7B s;
               json_end = py_rfind CHR 0x7D s + 1
           in if json_start \<noteq> - 1 \<and> json_end \<noteq> - 1
              then json_loads (slice s (nat json_start) (nat json_end))
              else Inl ValueError)
      | other \<Rightarrow> Inr other)"

definition dict_items :: "pyval \<Rightarrow> py_error + (string \<times> pyval) list" where
  \<comment> \<open>\<open>llm_data.items()\<close>: only a mapping has items\<close>
  "dict_items v = (case v of PDict kvs \<Rightarrow> Inr kvs | _ \<Rightarrow> Inl AttributeError)"

fun merge_loop :: "pydict \<Rightarrow> (string \<times> pyval) list \<Rightarrow> pydict" where
  "merge_loop enhanced_data [] = enhanced_data"
| "merge_loop enhanced_data ((key, val) # rest) =
     (if truthy val \<and> val \<noteq> PStr ''null''
      then merge_loop (enhanced_data(key \<mapsto> val)) rest
      else merge_loop enhanced_data rest)"

definition try_enhance ::
  "(string \<Rightarrow> py_error + pyval) \<Rightarrow> pydict \<Rightarrow> string \<Rightarrow> (string \<Rightarrow> py_error + pyval)
     \<Rightarrow> py_error + pydict" where
  \<comment> \<open>the body of the \<open>try\<close> block\<close>
  "try_enhance json_loads extracted_data clean_text llm_function =
     (case llm_function (create_llm_prompt clean_text) of
        Inl e \<Rightarrow> Inl e
      | Inr llm_response \<Rightarrow>
          (case parse_llm_response json_loads llm_response of
             Inl e \<Rightarrow> Inl e
           | Inr llm_data \<Rightarrow>
               (case dict_items llm_data of
                  Inl e \<Rightarrow> Inl e
                | Inr kvs \<Rightarrow> Inr (merge_loop extracted_data kvs))))"

definition enhance_with_llm ::
  "(string \<Rightarrow> py_error + pyval) \<Rightarrow> pydict \<Rightarrow> string \<Rightarrow> (string \<Rightarrow> py_error + pyval) option
     \<Rightarrow> py_error + pydict" where
  \<comment> \<open>\<open>Inl\<close> is an exception leaving the function: \<open>except Exception\<close> catches the
      \<open>Exception\<close>s of the \<open>try\<close> block and lets every other exception pass\<close>
  "enhance_with_llm json_loads extracted_data clean_text llm_function =
     (case llm_function of
        None \<Rightarrow> Inr extracted_data
      | Some f \<Rightarrow>
          (case try_enhance json_loads extracted_data clean_text f of
             Inl e \<Rightarrow> if is_exception e then Inr extracted_data else Inl e
           | Inr enhanced_data \<Rightarrow> Inr enhanced_data))"

section \<open>The start patterns together, and the example scenario\<close>

definition start_patterns :: "regex list" where
  \<comment> \<open>all the start patterns that the orchestrator and the references extractor use\<close>
  "start_patterns =
     intro_patterns @ thought_patterns @ answer_patterns @ ref_patterns @ limitation_patterns"

definition example_raw :: string where
  \<comment> \<open>the raw text of the example scenario\<close>
  "example_raw = ''ISSN 1234\<newline>\<newline>Introduction\<newline>This paper studies X.\<newline>\<newline>Methods\<newline>We did Y.\<newline>\<newline>Results\<newline>We found Z.\<newline>\<newline>References\<newline>1. Smith et al., 2020, a long citation line over twenty chars.\<newline>''"

definition example_clean :: string where
  \<comment> \<open>what the normalizer makes of it\<close>
  "example_clean = ''ISSN 1234 Introduction This paper studies X. Methods We did Y. Results We found Z. References 1. Smith et al., 2020, a long citation line over twenty chars.''"

section \<open>Properties of the matcher\<close>

lemma rmatch_first_char: "c \<notin> set s \<Longrightarrow> rmatch (Seq (Chr c) r) s = []"
  by (cases s) (auto simp: Chr_def)

lemma rmatch_mid_char: "c \<notin> set s \<Longrightarrow> rmatch (Seq a (Seq (Chr c) b)) s = []"
proof -
  assume c: "c \<notin> set s"
  have "rmatch (Seq (Chr c) b) (drop n s) = []" for n
    using c by (intro rmatch_first_char) (auto dest: in_set_dropD)
  then show ?thesis by simp
qed

lemma re_sub_no_match: "(\<And>t. set t \<subseteq> set s \<Longrightarrow> rmatch r t = []) \<Longrightarrow> re_sub r repl s = s"
proof (induction s)
  case Nil
  then show ?case by simp
next
  case (Cons c cs)
  have "rmatch r (c # cs) = []" using Cons.prems[of "c # cs"] by simp
  moreover have "re_sub r repl cs = cs"
    using Cons.prems by (intro Cons.IH) auto
  ultimately show ?case by simp
qed

lemma re_search_no_match: "(\<And>t. set t \<subseteq> set s \<Longrightarrow> rmatch r t = []) \<Longrightarrow> re_search r s = None"
proof (induction s)
  case Nil
  then show ?case by simp
next
  case (Cons c cs)
  have "rmatch r (c # cs) = []" using Cons.prems[of "c # cs"] by simp
  moreover have "re_search r cs = None"
    using Cons.prems by (intro Cons.IH) auto
  ultimately show ?case by simp
qed

lemma re_sub_first_char: "c \<notin> set s \<Longrightarrow> re_sub (Seq (Chr c) r) repl s = s"
  by (intro re_sub_no_match rmatch_first_char) auto

lemma re_search_first_char: "c \<notin> set s \<Longrightarrow> re_search (Seq (Chr c) r) s = None"
  by (intro re_search_no_match rmatch_first_char) auto

lemma rmatch_first_class: "\<forall>x \<in> set s. \<not> p x \<Longrightarrow> rmatch (Seq (Cls p) r) s = []"
  by (cases s) auto

lemma rmatch_second_class:
  "\<forall>x \<in> set s. \<not> p x \<Longrightarrow> rmatch (Seq a (Seq (Cls p) b)) s = []"
proof -
  assume c: "\<forall>x \<in> set s. \<not> p x"
  have "rmatch (Seq (Cls p) b) (drop n s) = []" for n
    using c by (intro rmatch_first_class) (auto dest: in_set_dropD)
  then show ?thesis by simp
qed

lemma set_re_sub: "set (re_sub r repl s) \<subseteq> set repl \<union> set s"
proof (induction r repl s rule: re_sub.induct)
  case (1 r repl)
  then show ?case by simp
next
  case (2 r repl c cs)
  show ?case
  proof (cases "rmatch r (c # cs)")
    case Nil
    then show ?thesis using 2(1) by auto
  next
    case (Cons n ns)
    show ?thesis
    proof (cases "0 < n")
      case True
      have "set (drop n (c # cs)) \<subseteq> set (c # cs)" by (rule set_drop_subset)
      then show ?thesis using 2(2)[OF Cons True] Cons True by auto
    next
      case False
      then show ?thesis using 2(3)[OF Cons False] Cons by auto
    qed
  qed
qed

lemma rmatch_Star_nonempty: "rmatch (Star a) s \<noteq> []"
  by (subst rmatch.simps) simp

section \<open>Properties of the text normalizer\<close>

lemma rmatch_ws_run:
  "rmatch ws_run (c # cs) = (if py_isspace c then map Suc (rmatch (Star (Cls py_isspace)) cs) else [])"
  by (simp add: ws_run_def Plus_def del: rmatch.simps(5))

lemma clean_pass1_chars: "x \<in> set (clean_pass1 s) \<Longrightarrow> x = CHR '' '' \<or> \<not> py_isspace x"
  unfolding clean_pass1_def
proof (induction ws_run "'' ''" s rule: re_sub.induct)
  case 1
  then show ?case by simp
next
  case (2 c cs)
  show ?case
  proof (cases "py_isspace c")
    case False
    then have "rmatch ws_run (c # cs) = []" by (simp add: rmatch_ws_run)
    then show ?thesis using 2(1,4) False by auto
  next
    case True
    obtain k ks where k: "rmatch (Star (Cls py_isspace)) cs = k # ks"
      using rmatch_Star_nonempty[of "Cls py_isspace" cs]
      by (cases "rmatch (Star (Cls py_isspace)) cs") auto
    have m: "rmatch ws_run (c # cs) = Suc k # map Suc ks" "0 < Suc k"
      using True k by (simp_all add: rmatch_ws_run)
    show ?thesis using 2(2)[OF m] 2(4) m by auto
  qed
qed

lemma NL_isspace: "py_isspace NL" "NL \<noteq> CHR '' ''"
  by (simp_all add: py_isspace_def NL_def)

lemma clean_pass1_no_NL: "NL \<notin> set (clean_pass1 s)"
  using clean_pass1_chars[of NL s] NL_isspace by blast

lemma set_strip: "set (strip s) \<subseteq> set s"
  unfolding strip_def by (auto dest!: set_dropWhileD)

lemma of_char_NL: "(of_char NL :: nat) = 10"
  by (simp add: NL_def)

lemma eq_NL_iff: "x = NL \<longleftrightarrow> (of_char x :: nat) = 10"
  using of_char_eq_iff[of x NL, where ?'a = nat] by (simp add: of_char_NL)

lemma lower_char_NL: "lower_char c = NL \<longleftrightarrow> c = NL"
  unfolding eq_NL_iff by (auto simp: lower_char_def Let_def)

lemma NL_lower: "NL \<in> set (lower s) \<longleftrightarrow> NL \<in> set s"
  unfolding lower_def set_map image_iff using lower_char_NL by metis

lemma nl_lit_Seq: "nl_lit w = Seq (Chr NL) (lit (w @ [NL]))"
  by (simp add: nl_lit_def)

lemma clean_pass3_chars: "set (clean_pass3 s) \<subseteq> set s"
  unfolding clean_pass3_def using set_re_sub[of email "[]" "re_sub url [] s"] set_re_sub[of url "[]" s]
  by auto

lemma clean_pass2_id: "NL \<notin> set s \<Longrightarrow> clean_pass2 s = s"
  by (simp add: clean_pass2_def page_number_def re_sub_first_char)

lemma clean_pass4_id: "NL \<notin> set s \<Longrightarrow> clean_pass4 s = s"
  by (simp add: clean_pass4_def nl_run_def Plus_def re_sub_first_char)

lemma clean_pdf_text_eq: "clean_pdf_text raw = strip (clean_pass3 (clean_pass1 raw))"
proof -
  have a: "clean_pass2 (clean_pass1 raw) = clean_pass1 raw"
    by (rule clean_pass2_id) (rule clean_pass1_no_NL)
  have "NL \<notin> set (clean_pass3 (clean_pass1 raw))"
    using clean_pass3_chars[of "clean_pass1 raw"] clean_pass1_no_NL[of raw] by auto
  then have "clean_pass4 (clean_pass3 (clean_pass1 raw)) = clean_pass3 (clean_pass1 raw)"
    by (rule clean_pass4_id)
  then show ?thesis by (simp add: clean_pdf_text_def a)
qed

lemma clean_pdf_text_no_NL: "NL \<notin> set (clean_pdf_text raw)"
  unfolding clean_pdf_text_eq
  using set_strip[of "clean_pass3 (clean_pass1 raw)"] clean_pass3_chars[of "clean_pass1 raw"]
    clean_pass1_no_NL[of raw] by auto

lemma start_patterns_newline: "p \<in> set start_patterns \<Longrightarrow> \<exists>r. p = Seq (Chr NL) r"
  by (auto simp: start_patterns_def intro_patterns_def thought_patterns_def answer_patterns_def
      ref_patterns_def limitation_patterns_def nl_lit_Seq)

text \<open>
  C2. For every raw text the output of the normalizer holds no newline: the first pass
  turns every run of whitespace into one space, the page-number pass and the
  newline-collapsing pass change nothing, and no pattern that starts with a newline
  (the start patterns of the sections among them) matches the output or its lowercased
  copy.
\<close>

theorem clean_pdf_text_no_newline:
  "NL \<notin> set (clean_pdf_text raw_text)
   \<and> clean_pass2 (clean_pass1 raw_text) = clean_pass1 raw_text
   \<and> clean_pass4 (clean_pass3 (clean_pass2 (clean_pass1 raw_text)))
        = clean_pass3 (clean_pass2 (clean_pass1 raw_text))
   \<and> re_search (Seq (Chr NL) r) (clean_pdf_text raw_text) = None
   \<and> re_search (Seq (Chr NL) r) (lower (clean_pdf_text raw_text)) = None
   \<and> (\<forall>p \<in> set start_patterns. re_search p (lower (clean_pdf_text raw_text)) = None)"
proof -
  have n: "NL \<notin> set (clean_pdf_text raw_text)" by (rule clean_pdf_text_no_NL)
  have nl: "NL \<notin> set (lower (clean_pdf_text raw_text))" using n by (simp add: NL_lower)
  have a: "clean_pass2 (clean_pass1 raw_text) = clean_pass1 raw_text"
    by (rule clean_pass2_id) (rule clean_pass1_no_NL)
  have "NL \<notin> set (clean_pass3 (clean_pass1 raw_text))"
    using clean_pass3_chars[of "clean_pass1 raw_text"] clean_pass1_no_NL[of raw_text] by auto
  then have b: "clean_pass4 (clean_pass3 (clean_pass2 (clean_pass1 raw_text)))
        = clean_pass3 (clean_pass2 (clean_pass1 raw_text))"
    unfolding a by (rule clean_pass4_id)
  have c: "re_search (Seq (Chr NL) q) (clean_pdf_text raw_text) = None" for q
    using n by (rule re_search_first_char)
  have d: "re_search (Seq (Chr NL) q) (lower (clean_pdf_text raw_text)) = None" for q
    using nl by (rule re_search_first_char)
  have e: "\<forall>p \<in> set start_patterns. re_search p (lower (clean_pdf_text raw_text)) = None"
  proof
    fix p assume "p \<in> set start_patterns"
    then obtain q where "p = Seq (Chr NL) q" using start_patterns_newline by blast
    then show "re_search p (lower (clean_pdf_text raw_text)) = None" using d by simp
  qed
  show ?thesis using n a b c d e by blast
qed

theorem clean_pdf_text_no_newline_witness:
  "NL \<notin> set (clean_pdf_text ''a\<newline>1\<newline>b'')
   \<and> re_search (nl_lit ''introduction'') (lower (clean_pdf_text ''a\<newline>1\<newline>b'')) = None"
  using clean_pdf_text_no_newline[of "''a\<newline>1\<newline>b''" "lit (''introduction'' @ [NL])"]
  by (simp add: nl_lit_Seq)

section \<open>The example scenario\<close>

lemma re_sub_email_id: "CHR ''@'' \<notin> set s \<Longrightarrow> re_sub email repl s = s"
  unfolding email_def by (intro re_sub_no_match rmatch_mid_char) auto

lemma section_loop_no_match:
  "\<forall>p \<in> set ps. re_search p (lower t) = None \<Longrightarrow> section_loop t ps m = None"
  by (induction ps) auto

lemma clean_sections_None:
  assumes "set ps \<subseteq> set start_patterns"
  shows "extract_section_by_pattern (clean_pdf_text raw) ps m = None"
proof -
  have "\<forall>p \<in> set ps. re_search p (lower (clean_pdf_text raw)) = None"
  proof
    fix p assume "p \<in> set ps"
    then obtain q where "p = Seq (Chr NL) q" using assms start_patterns_newline by blast
    moreover have "NL \<notin> set (lower (clean_pdf_text raw))"
      by (simp add: NL_lower clean_pdf_text_no_NL)
    ultimately show "re_search p (lower (clean_pdf_text raw)) = None"
      by (simp add: re_search_first_char)
  qed
  then show ?thesis by (simp add: extract_section_by_pattern_def section_loop_no_match)
qed

lemma example_pass1: "clean_pass1 example_raw = example_clean @ '' ''"
  unfolding example_raw_def example_clean_def by code_simp

lemma example_url: "re_sub url [] (example_clean @ '' '') = example_clean @ '' ''"
  unfolding example_clean_def by code_simp

lemma example_strip: "strip (example_clean @ '' '') = example_clean"
  unfolding example_clean_def by code_simp

lemma example_no_at: "CHR ''@'' \<notin> set (example_clean @ '' '')"
  unfolding example_clean_def by simp

lemma example_cleaned: "clean_pdf_text example_raw = example_clean"
  unfolding clean_pdf_text_eq clean_pass3_def example_pass1 example_url
  by (simp only: re_sub_email_id[OF example_no_at] example_strip)

lemma example_title: "extract_title example_clean = ''Document title not found''"
  unfolding example_clean_def by code_simp

lemma example_figures: "extract_figures_and_images example_clean = None"
  unfolding example_clean_def by code_simp

text \<open>
  C1. On the raw text of the example scenario the normalizer followed by the orchestrator
  finds no title and no section: every field holds its fallback and \<open>Further_Reading\<close> is
  \<open>None\<close>, because the cleaned text is one line without any newline.
\<close>

theorem example_scenario_extracts_nothing:
  "clean_pdf_text example_raw = example_clean
   \<and> extract_document_structure (clean_pdf_text example_raw) ''document''
     = Some (PStr ''Document title not found'')
   \<and> extract_document_structure (clean_pdf_text example_raw) ''Introduction''
     = Some (PStr ''Introduction section not found in document'')
   \<and> extract_document_structure (clean_pdf_text example_raw) ''Thoughts''
     = Some (PStr ''Methods/Discussion section not found in document'')
   \<and> extract_document_structure (clean_pdf_text example_raw) ''Answers''
     = Some (PStr ''Results/Conclusions section not found in document'')
   \<and> extract_document_structure (clean_pdf_text example_raw) ''Further_Reading'' = Some PNone
   \<and> extract_document_structure (clean_pdf_text example_raw) ''Images'' = Some PNone
   \<and> extract_document_structure (clean_pdf_text example_raw) ''Further_Development'' = Some PNone"
proof -
  have i: "extract_section_by_pattern (clean_pdf_text example_raw) intro_patterns 1500 = None"
    by (rule clean_sections_None) (auto simp: start_patterns_def)
  have t: "extract_section_by_pattern (clean_pdf_text example_raw) thought_patterns 1500 = None"
    by (rule clean_sections_None) (auto simp: start_patterns_def)
  have a: "extract_section_by_pattern (clean_pdf_text example_raw) answer_patterns 1500 = None"
    by (rule clean_sections_None) (auto simp: start_patterns_def)
  have r: "extract_section_by_pattern (clean_pdf_text example_raw) ref_patterns 1500 = None"
    by (rule clean_sections_None) (auto simp: start_patterns_def)
  have l: "extract_section_by_pattern (clean_pdf_text example_raw) limitation_patterns 1000 = None"
    by (rule clean_sections_None) (auto simp: start_patterns_def)
  have d: "extract_title (clean_pdf_text example_raw) = ''Document title not found''"
    by (simp only: example_cleaned example_title)
  have f: "extract_figures_and_images (clean_pdf_text example_raw) = None"
    by (simp only: example_cleaned example_figures)
  have s: "extract_document_structure (clean_pdf_text example_raw) ''document''
     = Some (PStr ''Document title not found'')
   \<and> extract_document_structure (clean_pdf_text example_raw) ''Introduction''
     = Some (PStr ''Introduction section not found in document'')
   \<and> extract_document_structure (clean_pdf_text example_raw) ''Thoughts''
     = Some (PStr ''Methods/Discussion section not found in document'')
   \<and> extract_document_structure (clean_pdf_text example_raw) ''Answers''
     = Some (PStr ''Results/Conclusions section not found in document'')
   \<and> extract_document_structure (clean_pdf_text example_raw) ''Further_Reading'' = Some PNone
   \<and> extract_document_structure (clean_pdf_text example_raw) ''Images'' = Some PNone
   \<and> extract_document_structure (clean_pdf_text example_raw) ''Further_Development'' = Some PNone"
    by (simp add: extract_document_structure_def or_else_def opt_str_def extract_references_def
        i t a r l d f)
  show ?thesis using example_cleaned s by (rule conjI)
qed

section \<open>The boundary patterns\<close>

lemma lower_char_not_AZ: "\<not> is_AZ (lower_char c)"
  by (auto simp: is_AZ_def lower_char_def Let_def)

lemma caps_heading_never_matches_lower: "re_search caps_heading (lower s) = None"
  unfolding caps_heading_def
proof (intro re_search_no_match rmatch_second_class ballI)
  fix t x assume "set t \<subseteq> set (lower s)" "x \<in> set t"
  then obtain c where "x = lower_char c" by (auto simp: lower_def)
  then show "\<not> is_AZ x" by (simp add: lower_char_not_AZ)
qed

text \<open>
  C6. An all-caps heading line after the start of a section does not end the section: the
  boundary patterns are searched in the lowercased text, where the all-caps pattern never
  matches, although it matches the text itself.
\<close>

theorem caps_heading_does_not_end_section:
  "extract_section_by_pattern ''\<newline>introduction\<newline>foo\<newline>METHODS AND\<newline>bar'' intro_patterns 1500
     = Some ''foo\<newline>METHODS AND\<newline>bar''
   \<and> re_search caps_heading ''foo\<newline>METHODS AND\<newline>bar'' = Some (3, 16)"
  by code_simp

section \<open>Properties of the title extractor\<close>

lemma starts_with_iff: "starts_with p s \<longleftrightarrow> (\<exists>suf. s = p @ suf)"
  by (induction p s rule: starts_with.induct) auto

lemma contains_iff: "contains sub s \<longleftrightarrow> (\<exists>pre suf. s = pre @ sub @ suf)"
proof (induction s)
  case Nil
  then show ?case by (auto simp: starts_with_iff)
next
  case (Cons c cs)
  show ?case
  proof
    assume "contains sub (c # cs)"
    then consider "starts_with sub (c # cs)" | "contains sub cs" by auto
    then show "\<exists>pre suf. c # cs = pre @ sub @ suf"
    proof cases
      case 1
      then obtain suf where "c # cs = sub @ suf" by (auto simp: starts_with_iff)
      then have "c # cs = [] @ sub @ suf" by simp
      then show ?thesis by blast
    next
      case 2
      then obtain pre suf where "cs = pre @ sub @ suf" using Cons.IH by blast
      then have "c # cs = (c # pre) @ sub @ suf" by simp
      then show ?thesis by blast
    qed
  next
    assume "\<exists>pre suf. c # cs = pre @ sub @ suf"
    then obtain pre suf where e: "c # cs = pre @ sub @ suf" by blast
    show "contains sub (c # cs)"
    proof (cases pre)
      case Nil
      then have "starts_with sub (c # cs)" using e unfolding starts_with_iff by auto
      then show ?thesis by simp
    next
      case (Cons a pre')
      then have "cs = pre' @ sub @ suf" using e by simp
      then show ?thesis using Cons.IH by auto
    qed
  qed
qed

lemma title_loop_None: "title_loop ls = None \<longleftrightarrow> (\<forall>l \<in> set ls. \<not> title_candidate l)"
  by (induction ls) (auto simp: title_candidate_def)

lemma title_loop_Some:
  "title_loop ls = Some l \<Longrightarrow>
     \<exists>i < length ls. ls ! i = l \<and> title_candidate l \<and> (\<forall>j < i. \<not> title_candidate (ls ! j))"
proof (induction ls)
  case Nil
  then show ?case by simp
next
  case (Cons a ls)
  show ?case
  proof (cases "title_candidate a")
    case True
    then have "l = a" using Cons.prems by (auto simp: title_candidate_def)
    then show ?thesis using True by (intro exI[of _ 0]) simp
  next
    case False
    then have "title_loop ls = Some l" using Cons.prems by (auto simp: title_candidate_def split: if_splits)
    then obtain i where i: "i < length ls" "ls ! i = l" "title_candidate l"
      "\<forall>j < i. \<not> title_candidate (ls ! j)" using Cons.IH by blast
    have "\<forall>j < Suc i. \<not> title_candidate ((a # ls) ! j)"
      using False i(4) by (auto simp: nth_Cons split: nat.splits)
    then show ?thesis using i by (intro exI[of _ "Suc i"]) simp
  qed
qed

text \<open>
  C7. For every text the title extractor returns the first of the first 20 non-empty trimmed
  lines that holds no skip marker (compared in lower case) and is longer than 10 characters,
  or the sentinel \<open>Document title not found\<close> when there is no such line; the result is
  never empty.
\<close>

theorem extract_title_first_candidate:
  "((\<exists>i. i < length (title_lines text) \<and> i < 20
         \<and> title_candidate (title_lines text ! i)
         \<and> (\<forall>j < i. \<not> title_candidate (title_lines text ! j))
         \<and> extract_title text = title_lines text ! i)
    \<or> ((\<forall>i. i < length (title_lines text) \<and> i < 20 \<longrightarrow> \<not> title_candidate (title_lines text ! i))
        \<and> extract_title text = ''Document title not found''))
   \<and> extract_title text \<noteq> []"
proof (cases "title_loop (take 20 (title_lines text))")
  case None
  then have "\<forall>l \<in> set (take 20 (title_lines text)). \<not> title_candidate l"
    by (simp add: title_loop_None)
  then have "\<forall>i. i < length (title_lines text) \<and> i < 20 \<longrightarrow> \<not> title_candidate (title_lines text ! i)"
    by (metis length_take min_less_iff_conj nth_mem nth_take)
  moreover have "extract_title text = ''Document title not found''"
    using None by (simp add: extract_title_def)
  ultimately show ?thesis by simp
next
  case (Some l)
  from title_loop_Some[OF Some] obtain i where i: "i < length (take 20 (title_lines text))"
    "take 20 (title_lines text) ! i = l" "title_candidate l"
    "\<forall>j < i. \<not> title_candidate (take 20 (title_lines text) ! j)" by blast
  have e: "extract_title text = l" using Some by (simp add: extract_title_def)
  have "i < length (title_lines text)" "i < 20" using i(1) by auto
  moreover have "title_lines text ! i = l" using i(1,2) by auto
  moreover have "\<forall>j < i. \<not> title_candidate (title_lines text ! j)"
    using i(1,4) by auto
  ultimately have "\<exists>i. i < length (title_lines text) \<and> i < 20
         \<and> title_candidate (title_lines text ! i)
         \<and> (\<forall>j < i. \<not> title_candidate (title_lines text ! j))
         \<and> extract_title text = title_lines text ! i"
    using i(3) e by blast
  moreover have "l \<noteq> []" using i(3) by (auto simp: title_candidate_def)
  ultimately show ?thesis using e by simp
qed

theorem extract_title_first_candidate_witness:
  "extract_title ''ISSN 1234\<newline>  A Study of Things \<newline>more'' = ''A Study of Things''
   \<and> extract_title ''ISSN 1234\<newline>short'' = ''Document title not found''
   \<and> extract_title ''ISSN 1234\<newline>  A Study of Things \<newline>more'' \<noteq> []"
proof -
  have a: "extract_title ''ISSN 1234\<newline>  A Study of Things \<newline>more'' = ''A Study of Things''"
    by code_simp
  have b: "extract_title ''ISSN 1234\<newline>short'' = ''Document title not found''"
    by code_simp
  show ?thesis
    using extract_title_first_candidate[of "''ISSN 1234\<newline>  A Study of Things \<newline>more''"] a b
    by simp
qed

section \<open>Properties of the section extractor\<close>

lemma section_loop_None_iff:
  "section_loop text patterns max_chars = None \<longleftrightarrow>
     (\<forall>p \<in> set patterns. re_search p (lower text) = None) \<or>
     (\<exists>ps p qs s e. patterns = ps @ p # qs
        \<and> (\<forall>q \<in> set ps. re_search q (lower text) = None)
        \<and> re_search p (lower text) = Some (s, e) \<and> section_from text e = [])"
proof (induction patterns)
  case Nil
  then show ?case by simp
next
  case (Cons a patterns)
  show ?case
  proof (cases "re_search a (lower text)")
    case None
    have "(\<exists>ps p qs s e. a # patterns = ps @ p # qs
        \<and> (\<forall>q \<in> set ps. re_search q (lower text) = None)
        \<and> re_search p (lower text) = Some (s, e) \<and> section_from text e = [])
      \<longleftrightarrow> (\<exists>ps p qs s e. patterns = ps @ p # qs
        \<and> (\<forall>q \<in> set ps. re_search q (lower text) = None)
        \<and> re_search p (lower text) = Some (s, e) \<and> section_from text e = [])"
      (is "?L \<longleftrightarrow> ?R")
    proof
      assume ?L
      then obtain ps p qs s e where h: "a # patterns = ps @ p # qs"
        "\<forall>q \<in> set ps. re_search q (lower text) = None"
        "re_search p (lower text) = Some (s, e)" "section_from text e = []" by blast
      have "ps \<noteq> []" using h(1,3) None by (cases ps) auto
      then obtain ps' where "ps = a # ps'" using h(1) by (cases ps) auto
      then have "patterns = ps' @ p # qs" "\<forall>q \<in> set ps'. re_search q (lower text) = None"
        using h(1,2) by auto
      then show ?R using h(3,4) by blast
    next
      assume ?R
      then obtain ps p qs s e where h: "patterns = ps @ p # qs"
        "\<forall>q \<in> set ps. re_search q (lower text) = None"
        "re_search p (lower text) = Some (s, e)" "section_from text e = []" by blast
      have "a # patterns = (a # ps) @ p # qs" "\<forall>q \<in> set (a # ps). re_search q (lower text) = None"
        using h(1,2) None by auto
      then show ?L using h(3,4) by blast
    qed
    then show ?thesis using None Cons.IH by simp
  next
    case (Some se)
    obtain s e where se: "se = (s, e)" by (cases se)
    have "(\<exists>ps p qs s e. a # patterns = ps @ p # qs
        \<and> (\<forall>q \<in> set ps. re_search q (lower text) = None)
        \<and> re_search p (lower text) = Some (s, e) \<and> section_from text e = [])
      \<longleftrightarrow> section_from text e = []"
      (is "?L \<longleftrightarrow> ?R")
    proof
      assume ?L
      then obtain ps p qs s' e' where h: "a # patterns = ps @ p # qs"
        "\<forall>q \<in> set ps. re_search q (lower text) = None"
        "re_search p (lower text) = Some (s', e')" "section_from text e' = []" by blast
      have "ps = []" using h(1,2) Some by (cases ps) auto
      then have "p = a" using h(1) by simp
      then show ?R using h(3,4) Some se by simp
    next
      assume ?R
      then have "a # patterns = [] @ a # patterns \<and> (\<forall>q \<in> set []. re_search q (lower text) = None)
        \<and> re_search a (lower text) = Some (s, e) \<and> section_from text e = []"
        using Some se by simp
      then show ?L by blast
    qed
    then show ?thesis using Some se by (auto simp: Let_def)
  qed
qed

lemma length_slice_to: "0 \<le> n \<Longrightarrow> int (length (slice_to s n)) \<le> n"
  by (simp add: slice_to_def)

lemma section_loop_cap:
  "0 \<le> max_chars \<Longrightarrow> section_loop text patterns max_chars = Some sec \<Longrightarrow>
   int (length sec) \<le> max_chars"
proof (induction patterns)
  case Nil
  then show ?case by simp
next
  case (Cons a patterns)
  then show ?case
    by (auto simp: Let_def length_slice_to split: option.splits if_splits)
qed

text \<open>
  C5. For every text, pattern list and cap \<open>max_chars\<close> (a number of characters), the
  section extractor returns \<open>None\<close> exactly when no start pattern matches the lowercased
  text or the section captured for the first pattern that matches is empty after trimming;
  a section that is returned has at most \<open>max_chars\<close> characters.
\<close>

theorem extract_section_null_and_cap:
  "(extract_section_by_pattern text patterns (int max_chars) = None \<longleftrightarrow>
      (\<forall>p \<in> set patterns. re_search p (lower text) = None) \<or>
      (\<exists>ps p qs s e. patterns = ps @ p # qs
         \<and> (\<forall>q \<in> set ps. re_search q (lower text) = None)
         \<and> re_search p (lower text) = Some (s, e) \<and> section_from text e = []))
   \<and> (\<forall>sec. extract_section_by_pattern text patterns (int max_chars) = Some sec
          \<longrightarrow> length sec \<le> max_chars)"
proof -
  have "int (length sec) \<le> int max_chars"
    if "extract_section_by_pattern text patterns (int max_chars) = Some sec" for sec
    using that section_loop_cap[of "int max_chars" "text" patterns sec]
    by (simp add: extract_section_by_pattern_def)
  then show ?thesis
    unfolding extract_section_by_pattern_def
    using section_loop_None_iff[of "text" patterns "int max_chars"]
    by auto
qed

theorem extract_section_null_and_cap_witness:
  "extract_section_by_pattern ''\<newline>introduction\<newline>abc'' [nl_lit ''introduction''] (int 2) = Some ''ab''
   \<and> length ''ab'' \<le> (2::nat)
   \<and> extract_section_by_pattern ''no header here'' [nl_lit ''introduction''] (int 2) = None"
proof -
  have e: "extract_section_by_pattern ''\<newline>introduction\<newline>abc'' [nl_lit ''introduction''] 2 = Some ''ab''"
    by code_simp
  have n: "re_search (nl_lit ''introduction'') (lower ''no header here'') = None"
    by code_simp
  show ?thesis
    using extract_section_null_and_cap[of "''\<newline>introduction\<newline>abc''" "[nl_lit ''introduction'']" 2]
      extract_section_null_and_cap[of "''no header here''" "[nl_lit ''introduction'']" 2] e n
    by simp
qed

section \<open>Properties of the orchestrator\<close>

text \<open>
  C4. For every cleaned text the mapping of the orchestrator holds a string for \<open>document\<close>,
  \<open>Introduction\<close>, \<open>Thoughts\<close> and \<open>Answers\<close>: when the section extractor returns \<open>None\<close>
  the field holds its literal \<open>... section not found in document\<close>; the optional fields
  \<open>Further_Reading\<close>, \<open>Images\<close> and \<open>Further_Development\<close> hold \<open>None\<close> when nothing is found.
\<close>

theorem orchestrator_required_never_null:
  "(\<exists>s. extract_document_structure t ''document'' = Some (PStr s)) \<and>
   (\<exists>s. extract_document_structure t ''Introduction'' = Some (PStr s)) \<and>
   (\<exists>s. extract_document_structure t ''Thoughts'' = Some (PStr s)) \<and>
   (\<exists>s. extract_document_structure t ''Answers'' = Some (PStr s)) \<and>
   (extract_section_by_pattern t intro_patterns 1500 = None \<longrightarrow>
      extract_document_structure t ''Introduction''
        = Some (PStr ''Introduction section not found in document'')) \<and>
   (extract_section_by_pattern t thought_patterns 1500 = None \<longrightarrow>
      extract_document_structure t ''Thoughts''
        = Some (PStr ''Methods/Discussion section not found in document'')) \<and>
   (extract_section_by_pattern t answer_patterns 1500 = None \<longrightarrow>
      extract_document_structure t ''Answers''
        = Some (PStr ''Results/Conclusions section not found in document'')) \<and>
   (extract_references t = None \<longrightarrow> extract_document_structure t ''Further_Reading'' = Some PNone) \<and>
   (extract_figures_and_images t = None \<longrightarrow> extract_document_structure t ''Images'' = Some PNone) \<and>
   (extract_section_by_pattern t limitation_patterns 1000 = None \<longrightarrow>
      extract_document_structure t ''Further_Development'' = Some PNone)"
  by (simp add: extract_document_structure_def or_else_def opt_str_def)

theorem orchestrator_required_never_null_witness:
  "extract_document_structure ''plain words'' ''Introduction''
     = Some (PStr ''Introduction section not found in document'')
   \<and> extract_document_structure ''plain words'' ''Thoughts''
     = Some (PStr ''Methods/Discussion section not found in document'')
   \<and> extract_document_structure ''plain words'' ''Answers''
     = Some (PStr ''Results/Conclusions section not found in document'')
   \<and> extract_document_structure ''plain words'' ''Further_Reading'' = Some PNone
   \<and> extract_document_structure ''plain words'' ''Images'' = Some PNone
   \<and> extract_document_structure ''plain words'' ''Further_Development'' = Some PNone"
proof -
  have a: "extract_section_by_pattern ''plain words'' intro_patterns 1500 = None" by code_simp
  have b: "extract_section_by_pattern ''plain words'' thought_patterns 1500 = None" by code_simp
  have c: "extract_section_by_pattern ''plain words'' answer_patterns 1500 = None" by code_simp
  have d: "extract_references ''plain words'' = None" by code_simp
  have e: "extract_figures_and_images ''plain words'' = None" by code_simp
  have f: "extract_section_by_pattern ''plain words'' limitation_patterns 1000 = None" by code_simp
  show ?thesis
    using orchestrator_required_never_null[of "''plain words''"] a b c d e f by simp
qed

section \<open>Properties of validation\<close>

lemma field_errors_empty_iff:
  "field_errors d = [] \<longleftrightarrow>
     (\<forall>k \<in> set required_fields. \<exists>s. d k = Some (PStr s)) \<and>
     (\<forall>k \<in> set optional_fields. d k = None \<or> d k = Some PNone \<or> (\<exists>s. d k = Some (PStr s)))"
proof -
  have r: "required_error d k = None \<longleftrightarrow> (\<exists>s. d k = Some (PStr s))" for k
    by (auto simp: required_error_def split: option.splits pyval.splits)
  have o: "optional_error d k = None \<longleftrightarrow> (d k = None \<or> d k = Some PNone \<or> (\<exists>s. d k = Some (PStr s)))" for k
    by (auto simp: optional_error_def split: option.splits pyval.splits)
  have m: "List.map_filter g xs = [] \<longleftrightarrow> (\<forall>x \<in> set xs. g x = None)" for g :: "string \<Rightarrow> field_error option" and xs
    by (induction xs) (auto simp: List.map_filter_simps split: option.splits)
  show ?thesis
    unfolding field_errors_def by (simp add: m r o)
qed

text \<open>
  C3, as the code has it. Validation succeeds exactly when each of the four required fields
  is present and holds a string (an empty one too) and each optional field is missing or
  holds \<open>None\<close> or a string; a mapping that misses a required field fails with a validation
  error.
\<close>

theorem validation_succeeds_iff_strings:
  "((\<exists>r. create_document_info d = Inr r) \<longleftrightarrow>
      (\<forall>k \<in> set required_fields. \<exists>s. d k = Some (PStr s)) \<and>
      (\<forall>k \<in> set optional_fields. d k = None \<or> d k = Some PNone \<or> (\<exists>s. d k = Some (PStr s))))
   \<and> ((\<exists>k \<in> set required_fields. d k = None) \<longrightarrow>
        (\<exists>errs. create_document_info d = Inl (ValidationError errs)))"
proof -
  have a: "(\<exists>r. create_document_info d = Inr r) \<longleftrightarrow> field_errors d = []"
    by (auto simp: create_document_info_def)
  have b: "(\<exists>k \<in> set required_fields. d k = None) \<Longrightarrow> field_errors d \<noteq> []"
    unfolding field_errors_empty_iff by fastforce
  show ?thesis
    using a b by (auto simp: field_errors_empty_iff create_document_info_def)
qed

theorem validation_succeeds_iff_strings_witness:
  "\<exists>r. create_document_info
     (map_of [(''document'', PStr ''A long enough title''), (''Introduction'', PStr ''i''),
              (''Thoughts'', PStr ''t''), (''Answers'', PStr ''a''), (''Images'', PNone)]) = Inr r"
  using validation_succeeds_iff_strings
    [of "map_of [(''document'', PStr ''A long enough title''), (''Introduction'', PStr ''i''),
              (''Thoughts'', PStr ''t''), (''Answers'', PStr ''a''), (''Images'', PNone)]"]
  by (simp add: required_fields_def optional_fields_def)

text \<open>
  C3 as stated asks for non-empty strings: a mapping whose \<open>document\<close> is the empty string
  validates.
\<close>

theorem validation_accepts_empty_string:
  "create_document_info
     (map_of [(''document'', PStr []), (''Introduction'', PStr ''intro''),
              (''Thoughts'', PStr ''thoughts''), (''Answers'', PStr ''answers'')])
   = Inr \<lparr> document = [], Introduction = ''intro'', Thoughts = ''thoughts'',
           Answers = ''answers'',
           Hallmarks = None, Further_Reading = None, Images = None, Further_Development = None,
           Thoughts_I = None, Answers_I = None, Answers_II = None, Further_Thoughts = None,
           Ependymoma = None \<rparr>"
  by (simp add: create_document_info_def field_errors_def required_fields_def optional_fields_def
      List.map_filter_simps required_error_def optional_error_def str_field_def opt_field_def)

section \<open>Properties of the enhancement merge\<close>

lemma merge_loop_lookup:
  "distinct (map fst kvs) \<Longrightarrow>
   merge_loop d kvs k =
     (case map_of kvs k of
        Some v \<Rightarrow> if truthy v \<and> v \<noteq> PStr ''null'' then Some v else d k
      | None \<Rightarrow> d k)"
proof (induction kvs arbitrary: d)
  case Nil
  then show ?case by simp
next
  case (Cons kv kvs)
  obtain key val where kv: "kv = (key, val)" by (cases kv)
  have d: "distinct (map fst kvs)" and nk: "key \<notin> fst ` set kvs"
    using Cons.prems kv by auto
  have none: "map_of kvs key = None" using nk by (simp add: map_of_eq_None_iff)
  show ?case
    using Cons.IH[OF d] kv none by (auto split: option.splits)
qed





text \<open>
  C9. Without a model function the enhancement merge returns its input mapping.
\<close>

theorem enhance_without_model_is_identity:
  "enhance_with_llm json_loads extracted_data clean_text None = Inr extracted_data"
  by (simp add: enhance_with_llm_def)




text \<open>
  C10. When the model's reply parses to a mapping, the result of the merge holds, under each
  key, the model's value if that value is truthy and not the string \<open>null\<close>, and the value
  of the heuristic mapping otherwise: no falsy value and no \<open>null\<close> string comes from the
  model's output.
\<close>

theorem merge_only_truthy_non_null:
  assumes "f (create_llm_prompt t) = Inr resp"
    and "parse_llm_response json_loads resp = Inr (PDict kvs)"
    and "distinct (map fst kvs)"
  shows "enhance_with_llm json_loads d t (Some f) = Inr (merge_loop d kvs) \<and>
         (\<forall>k. merge_loop d kvs k =
                 (case map_of kvs k of
                    Some v \<Rightarrow> if truthy v \<and> v \<noteq> PStr ''null'' then Some v else d k
                  | None \<Rightarrow> d k))"
  using assms merge_loop_lookup[OF assms(3)]
  by (simp add: enhance_with_llm_def try_enhance_def dict_items_def)

theorem merge_only_truthy_non_null_witness:
  "enhance_with_llm (\<lambda>s. Inl JSONDecodeError) [''b'' \<mapsto> PStr ''old''] ''text''
      (Some (\<lambda>p. Inr (PDict [(''a'', PStr ''x''), (''b'', PStr ''null''), (''c'', PNone)])))
     = Inr (merge_loop [''b'' \<mapsto> PStr ''old'']
              [(''a'', PStr ''x''), (''b'', PStr ''null''), (''c'', PNone)])
   \<and> merge_loop [''b'' \<mapsto> PStr ''old'']
              [(''a'', PStr ''x''), (''b'', PStr ''null''), (''c'', PNone)] ''b'' = Some (PStr ''old'')
   \<and> merge_loop [''b'' \<mapsto> PStr ''old'']
              [(''a'', PStr ''x''), (''b'', PStr ''null''), (''c'', PNone)] ''a'' = Some (PStr ''x'')
   \<and> merge_loop [''b'' \<mapsto> PStr ''old'']
              [(''a'', PStr ''x''), (''b'', PStr ''null''), (''c'', PNone)] ''c'' = None"
  using merge_only_truthy_non_null
    [of "\<lambda>p. Inr (PDict [(''a'', PStr ''x''), (''b'', PStr ''null''), (''c'', PNone)])" "''text''"
        "PDict [(''a'', PStr ''x''), (''b'', PStr ''null''), (''c'', PNone)]"
        "\<lambda>s. Inl JSONDecodeError" "[(''a'', PStr ''x''), (''b'', PStr ''null''), (''c'', PNone)]"
        "[''b'' \<mapsto> PStr ''old'']"]
  by (simp add: parse_llm_response_def)

end
